theory Spec2Isabelle
  imports Complex_Main "HOL-Library.Multiset"
begin

section \<open>The notebook \<open>explore_text_on_maps.ipynb\<close>: urban versus rural text\<close>

text \<open>
  The notebook is a sequence of cells over global variables. The cells embedded here
  are the ones that compute: the conversion of polygons to centroids, the loop that
  collects \<open>adjacent_text\<close> and \<open>other_text\<close>, the frequency and probability tables
  of each list, and \<open>proportional_difference\<close>.

  Python values are modelled as follows: \<open>str\<close> as \<open>string\<close>, each \<open>char\<close> being
  one code point below 256 (ASCII and the Latin-1 supplement; labels with other code
  points are outside the type), \<open>int\<close> as \<open>int\<close>, \<open>float\<close> as \<open>real\<close> (exact
  arithmetic: rounding is not modelled), a \<open>list\<close> as a list, and a \<open>dict\<close> as an
  association list in insertion order. An exception is a value of \<open>py_error\<close> on the
  left of a sum.
\<close>

subsection \<open>Dictionaries in insertion order\<close>

datatype py_error = ZeroDivisionError

text \<open>\<open>d.get(k, default)\<close>\<close>

fun dict_get :: "('k \<times> 'v) list \<Rightarrow> 'k \<Rightarrow> 'v \<Rightarrow> 'v" where
  "dict_get [] k dflt = dflt"
| "dict_get ((k', v) # d) k dflt = (if k' = k then v else dict_get d k dflt)"

text \<open>\<open>d[k] = v\<close>: an existing key keeps its position, a new key goes last.\<close>

fun dict_set :: "('k \<times> 'v) list \<Rightarrow> 'k \<Rightarrow> 'v \<Rightarrow> ('k \<times> 'v) list" where
  "dict_set [] k v = [(k, v)]"
| "dict_set ((k', v') # d) k v =
     (if k' = k then (k', v) # d else (k', v') # dict_set d k v)"

definition dict_keys :: "('k \<times> 'v) list \<Rightarrow> 'k list" where
  "dict_keys d = map fst d"

definition dict_values :: "('k \<times> 'v) list \<Rightarrow> 'v list" where
  "dict_values d = map snd d"

text \<open>
  \<open>Counter(iterable)\<close> of \<open>collections\<close>: for each element in turn,
  \<open>self[elem] = self.get(elem, 0) + 1\<close>.
\<close>

definition count_elem :: "'k \<Rightarrow> ('k \<times> int) list \<Rightarrow> ('k \<times> int) list" where
  "count_elem x c = dict_set c x (dict_get c x 0 + 1)"

definition Counter :: "'k list \<Rightarrow> ('k \<times> int) list" where
  "Counter xs = fold count_elem xs []"

subsection \<open>Frequency and probability tables (lines 172--173 and 183--184)\<close>

text \<open>
  \<open>str.lower()\<close>. Among the code points below 256 it changes the letters \<open>A\<close>..\<open>Z\<close>
  (65..90) and the Latin-1 capitals 192..214 and 216..222, each to the code point 32
  above; it leaves every other one as it is (among them the multiplication sign 215,
  the sharp s 223 and the letters that are lowercase already), and it works code
  point by code point.
\<close>

definition upper_code :: "nat \<Rightarrow> bool" where
  "upper_code n \<longleftrightarrow>
     (65 \<le> n \<and> n \<le> 90) \<or> (192 \<le> n \<and> n \<le> 214) \<or> (216 \<le> n \<and> n \<le> 222)"

definition lower_char :: "char \<Rightarrow> char" where
  "lower_char c =
     (let n = (of_char c :: nat) in if upper_code n then char_of (n + 32) else c)"

definition lower :: "string \<Rightarrow> string" where
  "lower s = map lower_char s"

text \<open>\<open>Counter([i.lower() for i in labels])\<close>\<close>

definition build_freq :: "string list \<Rightarrow> (string \<times> int) list" where
  "build_freq labels = Counter (map lower labels)"

text \<open>\<open>sum(xs)\<close> of Python: a left fold from 0.\<close>

definition py_sum :: "'a::monoid_add list \<Rightarrow> 'a" where
  "py_sum xs = fold (\<lambda>x acc. acc + x) xs 0"

text \<open>\<open>a / b\<close> on two ints: a float, or ZeroDivisionError when \<open>b\<close> is 0.\<close>

definition true_div :: "int \<Rightarrow> int \<Rightarrow> py_error + real" where
  "true_div a b = (if b = 0 then Inl ZeroDivisionError else Inr (real_of_int a / real_of_int b))"

text \<open>
  The comprehension \<open>{k: v / sum(freq.values()) for k, v in freq.items()}\<close>: the
  items are visited in order, the quotient (with its sum) is evaluated once per item,
  and the first exception ends the comprehension.
\<close>

fun prob_comprehension ::
  "(string \<times> int) list \<Rightarrow> (string \<times> int) list \<Rightarrow> (string \<times> real) list
   \<Rightarrow> py_error + (string \<times> real) list" where
  "prob_comprehension freq [] acc = Inr acc"
| "prob_comprehension freq ((k, v) # items) acc =
     (case true_div v (py_sum (dict_values freq)) of
        Inl e \<Rightarrow> Inl e
      | Inr q \<Rightarrow> prob_comprehension freq items (dict_set acc k q))"

definition build_prob :: "(string \<times> int) list \<Rightarrow> py_error + (string \<times> real) list" where
  "build_prob freq = prob_comprehension freq freq []"

text \<open>Both lines of a table cell: the frequency table, then the probability table.\<close>

definition build_tables ::
  "string list \<Rightarrow> py_error + ((string \<times> int) list \<times> (string \<times> real) list)" where
  "build_tables labels =
     (let freq = build_freq labels in
      case build_prob freq of Inl e \<Rightarrow> Inl e | Inr prob \<Rightarrow> Inr (freq, prob))"

subsection \<open>Geometry operations\<close>

text \<open>
  The notebook calls three operations of geopandas and shapely on a geometry:
  \<open>to_crs(epsg=27700)\<close>, \<open>centroid\<close> and \<open>distance(other)\<close>. They are
  parameters of the model, for any type \<open>'g\<close> of geometries.
\<close>

record 'g geolib =
  to_crs :: "'g \<Rightarrow> 'g"
  centroid_of :: "'g \<Rightarrow> 'g"
  geom_distance :: "'g \<Rightarrow> 'g \<Rightarrow> real"

text \<open>
  An instance to evaluate with: points and axis-parallel rectangles of the plane,
  already in the target reference system, with the Euclidean distance between two
  shapes (0 when they meet).
\<close>

datatype shape = Pt real real | Box real real real real

fun shape_centroid :: "shape \<Rightarrow> shape" where
  "shape_centroid (Pt x y) = Pt x y"
| "shape_centroid (Box x0 y0 x1 y1) = Pt ((x0 + x1) / 2) ((y0 + y1) / 2)"

fun extent :: "shape \<Rightarrow> (real \<times> real) \<times> (real \<times> real)" where
  "extent (Pt x y) = ((x, x), (y, y))"
| "extent (Box x0 y0 x1 y1) = ((x0, x1), (y0, y1))"

fun gap :: "real \<times> real \<Rightarrow> real \<times> real \<Rightarrow> real" where
  "gap (a0, a1) (b0, b1) = max 0 (max (b0 - a1) (a0 - b1))"

definition shape_distance :: "shape \<Rightarrow> shape \<Rightarrow> real" where
  "shape_distance s t =
     sqrt ((gap (fst (extent s)) (fst (extent t)))\<^sup>2 + (gap (snd (extent s)) (snd (extent t)))\<^sup>2)"

definition planar :: "shape geolib" where
  "planar = \<lparr>to_crs = (\<lambda>g. g), centroid_of = shape_centroid, geom_distance = shape_distance\<rparr>"

subsection \<open>The two data frames, and the cell that adds the centroids (lines 130--131)\<close>

text \<open>
  A row of \<open>predictions\<close> and a row of \<open>spotted_text\<close>, with the columns the cells
  read: the geometry and the predicted label, the geometry and the text. The cell
  \<open>predictions['centroid'] = predictions['geometry'].to_crs(epsg=27700).centroid\<close>
  (and the same for \<open>spotted_text\<close>) adds the column \<open>centroid\<close>; \<open>geometry\<close> stays
  the frame's geometry column. The columns \<open>geometry\<close> and \<open>centroid\<close> are the fields
  \<open>patch_geometry\<close>, \<open>patch_centroid\<close> of a patch and \<open>text_geometry\<close>,
  \<open>text_centroid\<close> of a text row; the column \<open>text\<close> is the field \<open>text_str\<close>.
\<close>

record 'g patch_raw =
  patch_geometry :: 'g
  predicted_label :: string

record 'g patch = "'g patch_raw" +
  patch_centroid :: 'g

record 'g spotted_raw =
  text_geometry :: 'g
  text_str :: string

record 'g spotted = "'g spotted_raw" +
  text_centroid :: 'g

definition predictions_centroid :: "'g geolib \<Rightarrow> 'g patch_raw list \<Rightarrow> 'g patch list" where
  "predictions_centroid lib df =
     map (\<lambda>r. \<lparr>patch_geometry = patch_geometry r, predicted_label = predicted_label r,
               patch_centroid = centroid_of lib (to_crs lib (patch_geometry r))\<rparr>) df"

definition spotted_text_centroid :: "'g geolib \<Rightarrow> 'g spotted_raw list \<Rightarrow> 'g spotted list" where
  "spotted_text_centroid lib df =
     map (\<lambda>r. \<lparr>text_geometry = text_geometry r, text_str = text_str r,
               text_centroid = centroid_of lib (to_crs lib (text_geometry r))\<rparr>) df"

subsection \<open>The loop over the patches (lines 148--160)\<close>

text \<open>The variables the cell reads and writes.\<close>

record 'g loop_vars =
  predictions :: "'g patch list"
  spotted_text :: "'g spotted list"
  adjacent_text :: "string list"
  other_text :: "string list"
  target_label :: string
  distance :: real

text \<open>
  \<open>df.to_crs(epsg=27700)\<close> returns a copy of the frame with its geometry column
  reprojected; \<open>df.distance(other)\<close> is the distance of each row's geometry column
  to \<open>other\<close>; \<open>df[keep]\<close> keeps the rows where the boolean series is true.
\<close>

definition df_to_crs :: "'g geolib \<Rightarrow> 'g spotted list \<Rightarrow> 'g spotted list" where
  "df_to_crs lib df = map (\<lambda>r. r\<lparr>text_geometry := to_crs lib (text_geometry r)\<rparr>) df"

definition df_distance :: "'g geolib \<Rightarrow> 'g spotted list \<Rightarrow> 'g \<Rightarrow> real list" where
  "df_distance lib df other = map (\<lambda>r. geom_distance lib (text_geometry r) other) df"

definition df_select :: "'a list \<Rightarrow> bool list \<Rightarrow> 'a list" where
  "df_select df keep = map fst (filter snd (zip df keep))"

text \<open>
  \<open>spotted_text[spotted_text.to_crs(epsg=27700).distance(row.centroid) <= distance].text.tolist()\<close>
\<close>

definition labels_near :: "'g geolib \<Rightarrow> 'g loop_vars \<Rightarrow> 'g patch \<Rightarrow> string list" where
  "labels_near lib s row =
     map text_str
       (df_select (spotted_text s)
          (map (\<lambda>d. d \<le> distance s)
             (df_distance lib (df_to_crs lib (spotted_text s)) (patch_centroid row))))"

text \<open>One iteration: \<open>extend\<close> appends to the list in place.\<close>

definition loop_body :: "'g geolib \<Rightarrow> 'g patch \<Rightarrow> 'g loop_vars \<Rightarrow> 'g loop_vars" where
  "loop_body lib row s =
     (let labels = labels_near lib s row in
      if predicted_label row = target_label s
      then s\<lparr>adjacent_text := adjacent_text s @ labels\<rparr>
      else s\<lparr>other_text := other_text s @ labels\<rparr>)"

text \<open>\<open>for i, row in predictions.iterrows(): ...\<close>\<close>

definition partition_loop :: "'g geolib \<Rightarrow> 'g loop_vars \<Rightarrow> 'g loop_vars" where
  "partition_loop lib s = fold (loop_body lib) (predictions s) s"

text \<open>The whole cell: the four assignments of lines 148--151, then the loop.\<close>

definition partition_cell :: "'g geolib \<Rightarrow> 'g loop_vars \<Rightarrow> 'g loop_vars" where
  "partition_cell lib s =
     partition_loop lib
       (s\<lparr>adjacent_text := [], other_text := [], target_label := ''building'', distance := 100\<rparr>)"

text \<open>
  The same loop as a function of the two frames, the target label and the maximum
  distance, returning the two lists.
\<close>

definition partition ::
  "'g geolib \<Rightarrow> 'g patch list \<Rightarrow> 'g spotted list \<Rightarrow> string \<Rightarrow> real \<Rightarrow> string list \<times> string list" where
  "partition lib anchors texts target max_distance =
     (let s = partition_loop lib
                \<lparr>predictions = anchors, spotted_text = texts, adjacent_text = [],
                 other_text = [], target_label = target, distance = max_distance\<rparr>
      in (adjacent_text s, other_text s))"

text \<open>The test the loop applies to a patch and a text row.\<close>

definition in_range :: "'g geolib \<Rightarrow> real \<Rightarrow> 'g patch \<Rightarrow> 'g spotted \<Rightarrow> bool" where
  "in_range lib max_distance row t \<longleftrightarrow>
     geom_distance lib (to_crs lib (text_geometry t)) (patch_centroid row) \<le> max_distance"

subsection \<open>The proportional difference (line 206)\<close>

text \<open>
  \<open>{w: prob_a.get(w, 0) - prob_b.get(w, 0) for w in prob_b.keys()}\<close>
\<close>

definition diff_comprehension ::
  "(string \<times> real) list \<Rightarrow> (string \<times> real) list \<Rightarrow> (string \<times> real) list" where
  "diff_comprehension prob_a prob_b =
     fold (\<lambda>w acc. dict_set acc w (dict_get prob_a w 0 - dict_get prob_b w 0))
       (dict_keys prob_b) []"

text \<open>
  \<open>sorted(xs, key=key, reverse=True)\<close>: CPython reverses the list, sorts it with a
  stable sort, and reverses the result.
\<close>

definition sorted_reverse :: "('a \<Rightarrow> 'b::linorder) \<Rightarrow> 'a list \<Rightarrow> 'a list" where
  "sorted_reverse key xs = rev (sort_key key (rev xs))"

definition rank_difference ::
  "(string \<times> real) list \<Rightarrow> (string \<times> real) list \<Rightarrow> (string \<times> real) list" where
  "rank_difference prob_a prob_b = sorted_reverse snd (diff_comprehension prob_a prob_b)"

text \<open>The cell, over the variables it reads and writes.\<close>

record rank_vars =
  building_text_prob :: "(string \<times> real) list"
  other_text_prob :: "(string \<times> real) list"
  proportional_difference :: "(string \<times> real) list"

definition rank_cell :: "rank_vars \<Rightarrow> rank_vars" where
  "rank_cell s =
     s\<lparr>proportional_difference := rank_difference (building_text_prob s) (other_text_prob s)\<rparr>"

subsection \<open>Example frames\<close>

text \<open>
  Three square patches of side 100 with centroids (0, 0), (60, 0) and (100, 0), the
  first two predicted \<open>building\<close>; a text at the point (50, 0) and one at (500, 0).
\<close>

definition example_predictions :: "shape patch list" where
  "example_predictions =
     predictions_centroid planar
       [\<lparr>patch_geometry = Box (- 50) (- 50) 50 50, predicted_label = ''building''\<rparr>,
        \<lparr>patch_geometry = Box 10 (- 50) 110 50, predicted_label = ''building''\<rparr>,
        \<lparr>patch_geometry = Box 50 (- 50) 150 50, predicted_label = ''no_building''\<rparr>]"

definition example_spotted_text :: "shape spotted list" where
  "example_spotted_text =
     spotted_text_centroid planar
       [\<lparr>text_geometry = Pt 50 0, text_str = ''Shop''\<rparr>,
        \<lparr>text_geometry = Pt 500 0, text_str = ''Farm''\<rparr>]"

text \<open>
  One \<open>building\<close> patch with centroid (0, 0), and a text whose polygon is the rectangle
  from (90, -10) to (130, 10): its nearest point is 90 away from (0, 0), its centroid
  (110, 0) is 110 away.
\<close>

definition one_building :: "shape patch list" where
  "one_building =
     predictions_centroid planar
       [\<lparr>patch_geometry = Box (- 50) (- 50) 50 50, predicted_label = ''building''\<rparr>]"

definition long_label :: "shape spotted list" where
  "long_label =
     spotted_text_centroid planar
       [\<lparr>text_geometry = Box 90 (- 10) 130 10, text_str = ''Shop''\<rparr>]"

subsection \<open>Equality up to case, stated without \<open>lower\<close>\<close>

text \<open>
  What it means for two strings to differ in case only is written down on its own, from
  the two alphabets and not from \<open>lower\<close>: the capital letters and, position by
  position, their small forms. Two characters are the same letter when they are equal
  or one is the capital and the other the small form at the same position; two strings
  are equal up to case when they have the same length and hold the same letter at
  every position.
\<close>

definition upper_letters :: string where
  "upper_letters = ''ABCDEFGHIJKLMNOPQRSTUVWXYZ''
     @ [CHR 0xC0, CHR 0xC1, CHR 0xC2, CHR 0xC3, CHR 0xC4, CHR 0xC5, CHR 0xC6, CHR 0xC7,
        CHR 0xC8, CHR 0xC9, CHR 0xCA, CHR 0xCB, CHR 0xCC, CHR 0xCD, CHR 0xCE, CHR 0xCF,
        CHR 0xD0, CHR 0xD1, CHR 0xD2, CHR 0xD3, CHR 0xD4, CHR 0xD5, CHR 0xD6,
        CHR 0xD8, CHR 0xD9, CHR 0xDA, CHR 0xDB, CHR 0xDC, CHR 0xDD, CHR 0xDE]"

definition lower_letters :: string where
  "lower_letters = ''abcdefghijklmnopqrstuvwxyz''
     @ [CHR 0xE0, CHR 0xE1, CHR 0xE2, CHR 0xE3, CHR 0xE4, CHR 0xE5, CHR 0xE6, CHR 0xE7,
        CHR 0xE8, CHR 0xE9, CHR 0xEA, CHR 0xEB, CHR 0xEC, CHR 0xED, CHR 0xEE, CHR 0xEF,
        CHR 0xF0, CHR 0xF1, CHR 0xF2, CHR 0xF3, CHR 0xF4, CHR 0xF5, CHR 0xF6,
        CHR 0xF8, CHR 0xF9, CHR 0xFA, CHR 0xFB, CHR 0xFC, CHR 0xFD, CHR 0xFE]"

definition same_letter :: "char \<Rightarrow> char \<Rightarrow> bool" where
  "same_letter c d \<longleftrightarrow>
     c = d \<or> (c, d) \<in> set (zip upper_letters lower_letters)
           \<or> (d, c) \<in> set (zip upper_letters lower_letters)"

definition equal_up_to_case :: "string \<Rightarrow> string \<Rightarrow> bool" where
  "equal_up_to_case s t \<longleftrightarrow> list_all2 same_letter s t"

section \<open>Lemmas\<close>

subsection \<open>Dictionaries, counters and the comprehension\<close>

lemma keys_dict_set: "fst ` set (dict_set d k v) = insert k (fst ` set d)"
  by (induction d) force+

lemma dict_set_keys:
  "map fst (dict_set d k v) = (if k \<in> fst ` set d then map fst d else map fst d @ [k])"
  by (induction d) force+

lemma distinct_dict_set:
  "distinct (map fst d) \<Longrightarrow> distinct (map fst (dict_set d k v))"
  by (simp add: dict_set_keys)

lemma dict_get_dict_set:
  "dict_get (dict_set d k v) k' dflt = (if k' = k then v else dict_get d k' dflt)"
  by (induction d) auto

lemma dict_get_mem: "k \<in> fst ` set d \<Longrightarrow> (k, dict_get d k dflt) \<in> set d"
  by (induction d) force+

lemma dict_get_notin: "k \<notin> fst ` set d \<Longrightarrow> dict_get d k dflt = dflt"
  by (induction d) auto

lemma dict_get_in_set:
  "distinct (map fst d) \<Longrightarrow> (k, v) \<in> set d \<Longrightarrow> dict_get d k dflt = v"
  by (induction d) force+


lemma dict_set_new:
  "k \<notin> fst ` set d \<Longrightarrow> dict_set d k v = d @ [(k, v)]"
  by (induction d) auto

lemma py_sum_sum_list: "py_sum xs = sum_list xs"
proof -
  have "fold (\<lambda>x acc. acc + x) xs a = a + sum_list xs" for a :: 'a
    by (induction xs arbitrary: a) (simp_all add: add.assoc)
  then show ?thesis by (simp add: py_sum_def)
qed

lemma sum_values_count_elem:
  "sum_list (map snd (count_elem x c)) = sum_list (map snd c) + 1"
  unfolding count_elem_def by (induction c) auto

lemma fold_count_elem_distinct:
  "distinct (map fst c) \<Longrightarrow> distinct (map fst (fold count_elem xs c))"
  by (induction xs arbitrary: c) (simp_all add: count_elem_def distinct_dict_set)

lemma fold_count_elem_keys:
  "fst ` set (fold count_elem xs c) = fst ` set c \<union> set xs"
  by (induction xs arbitrary: c) (simp_all add: count_elem_def keys_dict_set)

lemma fold_count_elem_get:
  "dict_get (fold count_elem xs c) k 0 = dict_get c k 0 + int (count_list xs k)"
  by (induction xs arbitrary: c) (auto simp: count_elem_def dict_get_dict_set)

lemma fold_count_elem_sum:
  "sum_list (map snd (fold count_elem xs c)) = sum_list (map snd c) + int (length xs)"
  by (induction xs arbitrary: c) (simp_all add: sum_values_count_elem)

lemma Counter_distinct: "distinct (map fst (Counter xs))"
  by (simp add: Counter_def fold_count_elem_distinct)

lemma Counter_keys: "fst ` set (Counter xs) = set xs"
  by (simp add: Counter_def fold_count_elem_keys)

lemma Counter_get: "dict_get (Counter xs) k 0 = int (count_list xs k)"
  by (simp add: Counter_def fold_count_elem_get)

lemma Counter_sum: "sum_list (map snd (Counter xs)) = int (length xs)"
  by (simp add: Counter_def fold_count_elem_sum)

lemma Counter_entry:
  assumes "(k, v) \<in> set (Counter xs)"
  shows "k \<in> set xs" and "v = int (count_list xs k)"
proof -
  show "k \<in> set xs"
    using assms Counter_keys [of xs] by force
  show "v = int (count_list xs k)"
    using dict_get_in_set [OF Counter_distinct assms, of 0] by (simp add: Counter_get)
qed

lemma count_list_map_filter:
  "count_list (map f xs) y = length (filter (\<lambda>x. f x = y) xs)"
  by (induction xs) auto

lemma fold_dict_set_fresh:
  "distinct (map fst items) \<Longrightarrow> fst ` set items \<inter> fst ` set acc = {} \<Longrightarrow>
   fold (\<lambda>(k, v) acc. dict_set acc k (f v)) items acc = acc @ map (\<lambda>(k, v). (k, f v)) items"
proof (induction items arbitrary: acc)
  case Nil
  then show ?case by simp
next
  case (Cons p items)
  obtain k v where p: "p = (k, v)" by (cases p)
  from Cons.prems have fresh: "k \<notin> fst ` set acc" by (auto simp: p)
  have "fst ` set items \<inter> fst ` set (acc @ [(k, f v)]) = {}"
    using Cons.prems by (auto simp: p)
  moreover have "distinct (map fst items)" using Cons.prems by simp
  ultimately show ?case
    using Cons.IH [of "acc @ [(k, f v)]"] by (simp add: p dict_set_new [OF fresh])
qed

lemma prob_comprehension_ok:
  "py_sum (dict_values freq) \<noteq> 0 \<Longrightarrow>
   prob_comprehension freq items acc =
     Inr (fold (\<lambda>(k, v) acc. dict_set acc k (real_of_int v / real_of_int (py_sum (dict_values freq))))
            items acc)"
  by (induction freq items acc rule: prob_comprehension.induct) (simp_all add: true_div_def)

lemma build_prob_distinct:
  assumes "distinct (map fst freq)"
  shows "build_prob freq =
     (if freq \<noteq> [] \<and> py_sum (dict_values freq) = 0 then Inl ZeroDivisionError
      else Inr (map (\<lambda>(k, v). (k, real_of_int v / real_of_int (py_sum (dict_values freq)))) freq))"
proof (cases "py_sum (dict_values freq) = 0")
  case True
  then show ?thesis
    by (cases freq) (auto simp: build_prob_def true_div_def)
next
  case False
  then show ?thesis
    using fold_dict_set_fresh [OF assms, of "[]"]
    by (simp add: build_prob_def prob_comprehension_ok)
qed

lemma build_tables_eq:
  "build_tables labels =
     Inr (build_freq labels,
          map (\<lambda>(k, v). (k, real_of_int v / real (length labels))) (build_freq labels))"
proof (cases labels)
  case Nil
  then show ?thesis
    by (simp add: build_tables_def build_freq_def Counter_def build_prob_def)
next
  case (Cons l ls)
  have "py_sum (dict_values (build_freq labels)) = int (length labels)"
    by (simp add: py_sum_sum_list dict_values_def build_freq_def Counter_sum)
  moreover have "distinct (map fst (build_freq labels))"
    by (simp add: build_freq_def Counter_distinct)
  ultimately show ?thesis
    using Cons by (simp add: build_tables_def build_prob_distinct Let_def)
qed


text \<open>\<open>lower\<close> against the two alphabets.\<close>

lemma upper_codes:
  "map of_char upper_letters = [65..<91] @ [192..<215] @ [216..<223 :: nat]"
  by code_simp

lemma lower_codes:
  "map of_char lower_letters = map (\<lambda>n. n + 32) ([65..<91] @ [192..<215] @ [216..<223 :: nat])"
  by code_simp

lemma set_codes:
  "set ([65..<91] @ [192..<215] @ [216..<223 :: nat]) = {65..<91} \<union> {192..<215} \<union> {216..<223}"
  by (simp only: set_append set_upt Un_assoc)

lemma upper_code_interval:
  "upper_code n \<longleftrightarrow> n \<in> {65..<91} \<union> {192..<215} \<union> {216..<223}"
  by (auto simp: upper_code_def)

lemma upper_code_shift: "upper_code n \<Longrightarrow> \<not> upper_code (n + 32)"
  by (auto simp: upper_code_def)

lemma lower_code_eq_iff:
  "(if upper_code n then n + 32 else n) = (if upper_code m then m + 32 else m)
     \<longleftrightarrow> n = m \<or> (upper_code n \<and> m = n + 32) \<or> (upper_code m \<and> n = m + 32)"
  using upper_code_shift [of n] upper_code_shift [of m] by auto

lemma lower_code_not_upper: "\<not> upper_code (if upper_code n then n + 32 else n)"
  using upper_code_shift [of n] by auto

lemma of_char_lower_char:
  "(of_char (lower_char c) :: nat)
     = (if upper_code (of_char c) then of_char c + 32 else of_char c)"
  by (simp add: lower_char_def upper_code_def Let_def)

lemma mem_upper_letters: "c \<in> set upper_letters \<longleftrightarrow> upper_code (of_char c)"
proof -
  have "c \<in> set upper_letters \<longleftrightarrow> (of_char c :: nat) \<in> of_char ` set upper_letters"
    by (auto simp: image_iff)
  also have "\<dots> \<longleftrightarrow> (of_char c :: nat) \<in> set (map of_char upper_letters)"
    by (simp only: set_map)
  finally show ?thesis
    by (simp only: upper_codes set_codes upper_code_interval)
qed

lemma zip_map_both:
  "zip (map f xs) (map g ys) = map (\<lambda>p. (f (fst p), g (snd p))) (zip xs ys)"
  by (simp add: zip_map_map case_prod_beta)

lemma zip_map_self: "zip xs (map g xs) = map (\<lambda>x. (x, g x)) xs"
  by (induction xs) simp_all

lemma case_pair_codes:
  "map (\<lambda>p. (of_char (fst p) :: nat, of_char (snd p) :: nat)) (zip upper_letters lower_letters)
     = map (\<lambda>n. (n, n + 32)) ([65..<91] @ [192..<215] @ [216..<223])"
proof -
  have "map (\<lambda>p. (of_char (fst p) :: nat, of_char (snd p) :: nat)) (zip upper_letters lower_letters)
      = zip (map of_char upper_letters) (map of_char lower_letters)"
    by (rule zip_map_both [symmetric])
  also have "\<dots> = map (\<lambda>n. (n, n + 32)) ([65..<91] @ [192..<215] @ [216..<223])"
    by (simp only: upper_codes lower_codes zip_map_self)
  finally show ?thesis .
qed

lemma mem_case_pairs:
  "(c, d) \<in> set (zip upper_letters lower_letters)
     \<longleftrightarrow> upper_code (of_char c) \<and> (of_char d :: nat) = of_char c + 32"
proof -
  let ?f = "\<lambda>p. (of_char (fst p) :: nat, of_char (snd p) :: nat)"
  have inj: "inj ?f"
    by (auto simp: inj_on_def prod_eq_iff)
  have "?f ` set (zip upper_letters lower_letters)
      = set (map (\<lambda>n. (n, n + 32)) ([65..<91] @ [192..<215] @ [216..<223]))"
    by (simp only: set_map [symmetric] case_pair_codes)
  also have "\<dots> = (\<lambda>n. (n, n + 32)) ` ({65..<91} \<union> {192..<215} \<union> {216..<223})"
    by (simp only: set_map set_codes)
  finally have img: "?f ` set (zip upper_letters lower_letters)
      = (\<lambda>n. (n, n + 32)) ` ({65..<91} \<union> {192..<215} \<union> {216..<223})" .
  have "(c, d) \<in> set (zip upper_letters lower_letters)
      \<longleftrightarrow> ?f (c, d) \<in> ?f ` set (zip upper_letters lower_letters)"
    by (rule inj_image_mem_iff [OF inj, symmetric])
  also have "\<dots> \<longleftrightarrow> (of_char c :: nat, of_char d :: nat)
       \<in> (\<lambda>n. (n, n + 32)) ` ({65..<91} \<union> {192..<215} \<union> {216..<223})"
    by (simp only: img fst_conv snd_conv)
  also have "\<dots> \<longleftrightarrow> upper_code (of_char c) \<and> (of_char d :: nat) = of_char c + 32"
    unfolding upper_code_interval by blast
  finally show ?thesis .
qed

lemma lower_char_eq_iff: "lower_char c = lower_char d \<longleftrightarrow> same_letter c d"
proof -
  have "lower_char c = lower_char d
      \<longleftrightarrow> (of_char (lower_char c) :: nat) = of_char (lower_char d)"
    by simp
  also have "\<dots> \<longleftrightarrow> (of_char c :: nat) = of_char d
      \<or> (upper_code (of_char c) \<and> (of_char d :: nat) = of_char c + 32)
      \<or> (upper_code (of_char d) \<and> (of_char c :: nat) = of_char d + 32)"
    by (simp only: of_char_lower_char lower_code_eq_iff)
  also have "\<dots> \<longleftrightarrow> same_letter c d"
    by (simp add: same_letter_def mem_case_pairs)
  finally show ?thesis .
qed

lemma lower_eq_iff: "lower s = lower t \<longleftrightarrow> equal_up_to_case s t"
proof -
  have "lower s = lower t \<longleftrightarrow> list_all2 (=) (map lower_char s) (map lower_char t)"
    by (simp add: lower_def list.rel_eq)
  also have "\<dots> \<longleftrightarrow> list_all2 (\<lambda>c d. lower_char c = lower_char d) s t"
    by (simp add: list_all2_map1 list_all2_map2)
  finally show ?thesis
    by (simp add: equal_up_to_case_def lower_char_eq_iff)
qed

lemma lower_char_not_upper: "\<not> upper_code (of_char (lower_char c))"
  by (simp only: of_char_lower_char lower_code_not_upper not_False_eq_True)

lemma lower_char_idem: "lower_char (lower_char c) = lower_char c"
  using lower_char_not_upper [of c] by (simp add: lower_char_def [of "lower_char c"])

lemma lower_idem: "lower (lower s) = lower s"
  by (simp add: lower_def lower_char_idem)

lemma lower_no_upper: "set (lower s) \<inter> set upper_letters = {}"
  by (auto simp: lower_def mem_upper_letters lower_char_not_upper)

lemma equal_up_to_case_scenario:
  "equal_up_to_case ''Street'' ''street''" "equal_up_to_case ''street'' ''street''"
  "\<not> equal_up_to_case ''LANE'' ''street''"
  by code_simp+

lemma lower_latin1:
  "lower [CHR 0xC9, CHR 0x67, CHR 0x6C, CHR 0x69, CHR 0x73, CHR 0x65]
     = [CHR 0xE9, CHR 0x67, CHR 0x6C, CHR 0x69, CHR 0x73, CHR 0x65]"
  "lower [CHR 0xDF, CHR 0xD7, CHR 0xFF] = [CHR 0xDF, CHR 0xD7, CHR 0xFF]"
  by code_simp+

lemma build_freq_scenario:
  "build_freq [''Street'', ''street'', ''LANE''] = [(''street'', 2), (''lane'', 1)]"
  by code_simp

lemma lower_scenario:
  "lower ''Street'' = ''street''" "lower ''street'' = ''street''" "lower ''LANE'' = ''lane''"
  by code_simp+




lemma map_fst_map_values: "map fst (map (\<lambda>(k, v). (k, f v)) d) = map fst d"
  by (induction d) auto

subsection \<open>Sorting in reverse\<close>



lemma fold_dict_set_fresh_keys:
  "distinct ws \<Longrightarrow> set ws \<inter> fst ` set acc = {} \<Longrightarrow>
   fold (\<lambda>w acc. dict_set acc w (g w)) ws acc = acc @ map (\<lambda>w. (w, g w)) ws"
proof (induction ws arbitrary: acc)
  case Nil
  then show ?case by simp
next
  case (Cons w ws)
  from Cons.prems have fresh: "w \<notin> fst ` set acc" by auto
  have "set ws \<inter> fst ` set (acc @ [(w, g w)]) = {}"
    using Cons.prems by auto
  moreover have "distinct ws" using Cons.prems by simp
  ultimately show ?case
    using Cons.IH [of "acc @ [(w, g w)]"] by (simp add: dict_set_new [OF fresh])
qed


lemma diff_comprehension_distinct:
  "distinct (dict_keys prob_b) \<Longrightarrow>
   diff_comprehension prob_a prob_b
     = map (\<lambda>w. (w, dict_get prob_a w 0 - dict_get prob_b w 0)) (dict_keys prob_b)"
  by (simp add: diff_comprehension_def fold_dict_set_fresh_keys)

lemma set_sorted_reverse: "set (sorted_reverse key xs) = set xs"
  by (simp add: sorted_reverse_def)


lemma sorted_reverse_descending:
  "sorted_wrt (\<lambda>x y. key x \<ge> key y) (sorted_reverse key xs)"
proof -
  have "sorted (map key (sort_key key (rev xs)))"
    by (rule sorted_sort_key)
  then have "sorted_wrt (\<lambda>x y. key x \<le> key y) (sort_key key (rev xs))"
    by (simp add: sorted_wrt_map)
  then show ?thesis
    by (simp add: sorted_reverse_def sorted_wrt_rev)
qed

lemma sorted_reverse_stable:
  "filter (\<lambda>x. key x = k) (sorted_reverse key xs) = filter (\<lambda>x. key x = k) xs"
  by (simp add: sorted_reverse_def rev_filter [symmetric] sort_key_stable)

subsection \<open>The loop as two concatenations\<close>

lemma df_select_map: "df_select xs (map P xs) = filter P xs"
  by (induction xs) (simp_all add: df_select_def)

lemma labels_near_eq:
  "labels_near lib s row = map text_str (filter (in_range lib (distance s) row) (spotted_text s))"
proof -
  have "map (\<lambda>d. d \<le> distance s)
          (df_distance lib (df_to_crs lib (spotted_text s)) (patch_centroid row))
        = map (in_range lib (distance s) row) (spotted_text s)"
    by (simp add: df_distance_def df_to_crs_def in_range_def comp_def)
  then show ?thesis
    by (simp add: labels_near_def df_select_map)
qed

lemma loop_body_frame:
  "predictions (loop_body lib row s) = predictions s"
  "spotted_text (loop_body lib row s) = spotted_text s"
  "target_label (loop_body lib row s) = target_label s"
  "distance (loop_body lib row s) = distance s"
  by (simp_all add: loop_body_def Let_def)

lemma fold_loop_body_frame:
  "predictions (fold (loop_body lib) rows s) = predictions s
   \<and> spotted_text (fold (loop_body lib) rows s) = spotted_text s
   \<and> target_label (fold (loop_body lib) rows s) = target_label s
   \<and> distance (fold (loop_body lib) rows s) = distance s"
  by (induction rows arbitrary: s) (simp_all add: loop_body_frame)

lemma fold_loop_body_lists:
  "adjacent_text (fold (loop_body lib) rows s)
     = adjacent_text s
       @ concat (map (\<lambda>row. map text_str (filter (in_range lib (distance s) row) (spotted_text s)))
           (filter (\<lambda>row. predicted_label row = target_label s) rows))
   \<and> other_text (fold (loop_body lib) rows s)
     = other_text s
       @ concat (map (\<lambda>row. map text_str (filter (in_range lib (distance s) row) (spotted_text s)))
           (filter (\<lambda>row. predicted_label row \<noteq> target_label s) rows))"
proof (induction rows arbitrary: s)
  case Nil
  then show ?case by simp
next
  case (Cons row rows)
  show ?case
    using Cons.IH [of "loop_body lib row s"]
    by (simp add: loop_body_frame) (simp add: loop_body_def Let_def labels_near_eq)
qed

lemma partition_eq:
  "partition lib anchors texts target max_distance =
     (concat (map (\<lambda>row. map text_str (filter (in_range lib max_distance row) texts))
        (filter (\<lambda>row. predicted_label row = target) anchors)),
      concat (map (\<lambda>row. map text_str (filter (in_range lib max_distance row) texts))
        (filter (\<lambda>row. predicted_label row \<noteq> target) anchors)))"
  by (simp add: partition_def partition_loop_def Let_def fold_loop_body_lists)

lemma partition_loop_eq:
  "partition_loop lib s =
     s\<lparr>adjacent_text := adjacent_text s
          @ fst (partition lib (predictions s) (spotted_text s) (target_label s) (distance s)),
       other_text := other_text s
          @ snd (partition lib (predictions s) (spotted_text s) (target_label s) (distance s))\<rparr>"
  by (rule loop_vars.equality)
     (simp_all add: partition_loop_def fold_loop_body_frame fold_loop_body_lists partition_eq)

lemma count_list_concat:
  "count_list (concat xss) w = sum_list (map (\<lambda>xs. count_list xs w) xss)"
  by (induction xss) simp_all

lemma length_filter_le_sum_list:
  fixes g :: "'a \<Rightarrow> nat"
  assumes "\<And>x. x \<in> set xs \<Longrightarrow> P x \<Longrightarrow> 1 \<le> g x"
  shows "length (filter P xs) \<le> sum_list (map g xs)"
  using assms
proof (induction xs)
  case Nil
  show ?case by simp
next
  case (Cons a xs)
  have IH: "length (filter P xs) \<le> sum_list (map g xs)"
    using Cons by simp
  show ?case
  proof (cases "P a")
    case True
    then have "1 \<le> g a" using Cons.prems by simp
    with IH True show ?thesis by simp
  next
    case False
    with IH show ?thesis by simp
  qed
qed

lemma count_list_pos: "x \<in> set xs \<Longrightarrow> 1 \<le> count_list xs x"
  by (induction xs) auto

lemma matches_le_count:
  assumes "t \<in> set texts"
  shows "length (filter (\<lambda>row. Q row \<and> in_range lib d row t) anchors)
     \<le> count_list (concat (map (\<lambda>row. map text_str (filter (in_range lib d row) texts))
           (filter Q anchors))) (text_str t)"
proof -
  have "length (filter (\<lambda>row. Q row \<and> in_range lib d row t) anchors)
      = length (filter (\<lambda>row. in_range lib d row t) (filter Q anchors))"
    by (simp add: conj_commute)
  also have "\<dots> \<le> sum_list (map (\<lambda>row. count_list (map text_str (filter (in_range lib d row) texts)) (text_str t))
       (filter Q anchors))"
  proof (rule length_filter_le_sum_list)
    fix row assume "in_range lib d row t"
    with assms have "text_str t \<in> set (map text_str (filter (in_range lib d row) texts))"
      by simp
    then show "1 \<le> count_list (map text_str (filter (in_range lib d row) texts)) (text_str t)"
      by (rule count_list_pos)
  qed
  finally show ?thesis
    by (simp add: count_list_concat comp_def)
qed

text \<open>Comparing a distance of the example geometry with a bound, without the root.\<close>

lemma real_sqrt_le_iff_sq: "0 \<le> d \<Longrightarrow> sqrt x \<le> d \<longleftrightarrow> x \<le> d\<^sup>2"
  using real_le_lsqrt sqrt_le_D by blast

lemma shape_distance_le:
  "0 \<le> d \<Longrightarrow> shape_distance s t \<le> d \<longleftrightarrow>
     (gap (fst (extent s)) (fst (extent t)))\<^sup>2 + (gap (snd (extent s)) (snd (extent t)))\<^sup>2 \<le> d\<^sup>2"
  by (simp add: shape_distance_def real_sqrt_le_iff_sq)

lemma example_predictions_rows:
  "example_predictions =
     [\<lparr>patch_geometry = Box (- 50) (- 50) 50 50, predicted_label = ''building'',
       patch_centroid = Pt 0 0\<rparr>,
      \<lparr>patch_geometry = Box 10 (- 50) 110 50, predicted_label = ''building'',
       patch_centroid = Pt 60 0\<rparr>,
      \<lparr>patch_geometry = Box 50 (- 50) 150 50, predicted_label = ''no_building'',
       patch_centroid = Pt 100 0\<rparr>]"
  by (simp add: example_predictions_def predictions_centroid_def planar_def)

lemma example_spotted_text_rows:
  "example_spotted_text =
     [\<lparr>text_geometry = Pt 50 0, text_str = ''Shop'', text_centroid = Pt 50 0\<rparr>,
      \<lparr>text_geometry = Pt 500 0, text_str = ''Farm'', text_centroid = Pt 500 0\<rparr>]"
  by (simp add: example_spotted_text_def spotted_text_centroid_def planar_def)

lemma one_building_rows:
  "one_building =
     [\<lparr>patch_geometry = Box (- 50) (- 50) 50 50, predicted_label = ''building'',
       patch_centroid = Pt 0 0\<rparr>]"
  by (simp add: one_building_def predictions_centroid_def planar_def)

lemma long_label_rows:
  "long_label =
     [\<lparr>text_geometry = Box 90 (- 10) 130 10, text_str = ''Shop'', text_centroid = Pt 110 0\<rparr>]"
  by (simp add: long_label_def spotted_text_centroid_def planar_def)

lemma planar_in_range:
  "in_range planar d row t \<longleftrightarrow> shape_distance (text_geometry t) (patch_centroid row) \<le> d"
  by (simp add: in_range_def planar_def)

section \<open>The claims\<close>

subsection \<open>The loop over the patches\<close>

text \<open>
  Claim C3, at an input where the code and the claim part. The patch is predicted
  \<open>building\<close> and has its centroid at (0, 0); the text \<open>Shop\<close> has a polygon that
  comes within 90 of that point, and a centroid that is 110 away. With the maximum
  distance 100 the loop appends \<open>Shop\<close> to \<open>adjacent_text\<close>: it measures from the
  text's geometry column, and the column \<open>centroid\<close> of \<open>spotted_text\<close> is not read.
\<close>

theorem partition_measures_text_geometry:
  "partition planar one_building long_label ''building'' 100 = ([''Shop''], [])
   \<and> map patch_centroid one_building = [Pt 0 0]
   \<and> map text_centroid long_label = [Pt 110 0]
   \<and> \<not> geom_distance planar (Pt 110 0) (Pt 0 0) \<le> 100
   \<and> geom_distance planar (Box 90 (- 10) 130 10) (Pt 0 0) \<le> 100"
  by (simp add: partition_eq one_building_rows long_label_rows planar_in_range shape_distance_le)
    (simp add: planar_def shape_distance_le)

text \<open>
  Claim C4. The lists are built without removing duplicates. \<open>adjacent_text\<close> is the
  concatenation, over the patches whose label is the target label and in their order,
  of the texts of all rows in range of that patch; \<open>other_text\<close> is the same over the
  other patches. So a text row contributes one entry for each patch it is in range of:
  its text occurs in a list at least as often as there are patches of that bucket in
  range of it. A row in range of a patch of each bucket has its text in both lists.
  In range means what the loop tests: the distance from the row's geometry to the
  patch's centroid is at most the maximum distance.
\<close>

theorem partition_no_dedup:
  "fst (partition lib anchors texts target d)
     = concat (map (\<lambda>row. map text_str (filter (in_range lib d row) texts))
         (filter (\<lambda>row. predicted_label row = target) anchors))
   \<and> snd (partition lib anchors texts target d)
     = concat (map (\<lambda>row. map text_str (filter (in_range lib d row) texts))
         (filter (\<lambda>row. predicted_label row \<noteq> target) anchors))
   \<and> (t \<in> set texts \<longrightarrow>
        length (filter (\<lambda>row. predicted_label row = target \<and> in_range lib d row t) anchors)
          \<le> count_list (fst (partition lib anchors texts target d)) (text_str t)
      \<and> length (filter (\<lambda>row. predicted_label row \<noteq> target \<and> in_range lib d row t) anchors)
          \<le> count_list (snd (partition lib anchors texts target d)) (text_str t))
   \<and> (t \<in> set texts \<and> a \<in> set anchors \<and> predicted_label a = target \<and> in_range lib d a t
        \<and> b \<in> set anchors \<and> predicted_label b \<noteq> target \<and> in_range lib d b t \<longrightarrow>
        text_str t \<in> set (fst (partition lib anchors texts target d))
      \<and> text_str t \<in> set (snd (partition lib anchors texts target d)))"
proof -
  have "t \<in> set texts \<longrightarrow>
        length (filter (\<lambda>row. predicted_label row = target \<and> in_range lib d row t) anchors)
          \<le> count_list (fst (partition lib anchors texts target d)) (text_str t)
      \<and> length (filter (\<lambda>row. predicted_label row \<noteq> target \<and> in_range lib d row t) anchors)
          \<le> count_list (snd (partition lib anchors texts target d)) (text_str t)"
    using matches_le_count [of t texts "\<lambda>row. predicted_label row = target" lib d anchors]
      matches_le_count [of t texts "\<lambda>row. predicted_label row \<noteq> target" lib d anchors]
    by (simp add: partition_eq)
  moreover have "t \<in> set texts \<and> a \<in> set anchors \<and> predicted_label a = target \<and> in_range lib d a t
        \<and> b \<in> set anchors \<and> predicted_label b \<noteq> target \<and> in_range lib d b t \<longrightarrow>
        text_str t \<in> set (fst (partition lib anchors texts target d))
      \<and> text_str t \<in> set (snd (partition lib anchors texts target d))"
    by (auto simp: partition_eq)
  ultimately show ?thesis
    by (simp add: partition_eq)
qed

text \<open>
  Witness for C4: in the example frames the text \<open>Shop\<close> is in range of all three patches: it is
  appended twice to \<open>adjacent_text\<close> and once to \<open>other_text\<close>.
\<close>

theorem partition_no_dedup_witness:
  "example_spotted_text ! 0 \<in> set example_spotted_text
   \<and> example_predictions ! 0 \<in> set example_predictions
   \<and> predicted_label (example_predictions ! 0) = ''building''
   \<and> in_range planar 100 (example_predictions ! 0) (example_spotted_text ! 0)
   \<and> example_predictions ! 2 \<in> set example_predictions
   \<and> predicted_label (example_predictions ! 2) \<noteq> ''building''
   \<and> in_range planar 100 (example_predictions ! 2) (example_spotted_text ! 0)
   \<and> length (filter (\<lambda>row. predicted_label row = ''building''
          \<and> in_range planar 100 row (example_spotted_text ! 0)) example_predictions) = 2
   \<and> partition planar example_predictions example_spotted_text ''building'' 100
       = ([''Shop'', ''Shop''], [''Shop''])"
  using partition_no_dedup [of planar example_predictions example_spotted_text "''building''" 100
      "example_spotted_text ! 0" "example_predictions ! 0" "example_predictions ! 2"]
  by (simp add: prod_eq_iff example_predictions_rows example_spotted_text_rows planar_in_range
      shape_distance_le)

text \<open>
  Claim C8. With no patches the loop body never runs: both lists are empty, whatever the
  texts, the target label and the maximum distance.
\<close>

theorem partition_empty_anchors: "partition lib [] texts target max_distance = ([], [])"
  by (simp add: partition_def partition_loop_def)

text \<open>
  Claim C9. Neither cell changes what it reads. The loop leaves every variable as it was but
  the two lists, to which it appends what \<open>partition\<close> returns; the cell of lines
  148--160 leaves \<open>predictions\<close> and \<open>spotted_text\<close> as they were and its two lists are
  the result of \<open>partition\<close> for the label \<open>building\<close> and the distance 100; the cell of
  line 206 leaves both probability tables as they were and binds
  \<open>proportional_difference\<close> to the result of \<open>rank_difference\<close>.
\<close>

theorem cells_leave_inputs_unchanged:
  "partition_loop lib s =
     s\<lparr>adjacent_text := adjacent_text s
          @ fst (partition lib (predictions s) (spotted_text s) (target_label s) (distance s)),
       other_text := other_text s
          @ snd (partition lib (predictions s) (spotted_text s) (target_label s) (distance s))\<rparr>
   \<and> predictions (partition_cell lib s) = predictions s
   \<and> spotted_text (partition_cell lib s) = spotted_text s
   \<and> (adjacent_text (partition_cell lib s), other_text (partition_cell lib s))
       = partition lib (predictions s) (spotted_text s) ''building'' 100
   \<and> building_text_prob (rank_cell r) = building_text_prob r
   \<and> other_text_prob (rank_cell r) = other_text_prob r
   \<and> proportional_difference (rank_cell r)
       = rank_difference (building_text_prob r) (other_text_prob r)"
proof -
  have "predictions (partition_cell lib s) = predictions s"
    and "spotted_text (partition_cell lib s) = spotted_text s"
    and "(adjacent_text (partition_cell lib s), other_text (partition_cell lib s))
       = partition lib (predictions s) (spotted_text s) ''building'' 100"
    by (simp_all add: partition_cell_def partition_loop_eq)
  moreover have "building_text_prob (rank_cell r) = building_text_prob r"
    and "other_text_prob (rank_cell r) = other_text_prob r"
    and "proportional_difference (rank_cell r)
       = rank_difference (building_text_prob r) (other_text_prob r)"
    by (simp_all add: rank_cell_def)
  ultimately show ?thesis
    using partition_loop_eq [of lib s] by simp
qed

subsection \<open>Tables of an empty list\<close>


text \<open>
  Claim C1, as the code behaves. For an empty list of labels the comprehension visits no
  item, so the division is never evaluated: no error is raised, and the frequency
  table and the probability table are both empty.
\<close>

theorem build_tables_empty: "build_tables [] = Inr ([], [])"
  by (simp add: build_tables_def build_freq_def Counter_def build_prob_def)

text \<open>
  Claim C1 as stated fails: on the empty list the result is not an error, and the
  probability table returned is the empty one.
\<close>

theorem build_tables_empty_not_error:
  "\<not> isl (build_tables []) \<and> snd (projr (build_tables [])) = []"
  by (simp add: build_tables_def build_freq_def Counter_def build_prob_def)

subsection \<open>The frequency table\<close>

text \<open>
  Claim C6. The frequency table counts without regard to case, where equality up to case
  is the notion written down from the two alphabets. Every label is lowercased before
  it is counted: the keys are exactly the lowercased labels, each label is equal up to
  case to the key it is counted under, and no key holds a capital letter. Labels that
  differ only in case merge into one key: they have the same lowercased form, the keys
  are distinct, and no two different keys are equal up to case. The count of a key
  \<open>k\<close> is the number of labels equal to \<open>k\<close> up to case; more generally, for any string
  \<open>k\<close>, that number is the count found under the lowercase form of \<open>k\<close> (0 when it
  is not a key). The labels \<open>Street\<close>, \<open>street\<close>, \<open>LANE\<close> give \<open>street\<close> twice and
  \<open>lane\<close> once.
\<close>

theorem build_freq_case_insensitive:
  "set (dict_keys (build_freq labels)) = lower ` set labels
   \<and> (l \<in> set labels \<longrightarrow>
        lower l \<in> set (dict_keys (build_freq labels)) \<and> equal_up_to_case l (lower l))
   \<and> (k \<in> set (dict_keys (build_freq labels)) \<longrightarrow> set k \<inter> set upper_letters = {})
   \<and> (l \<in> set labels \<and> l' \<in> set labels \<and> equal_up_to_case l l' \<longrightarrow> lower l = lower l')
   \<and> distinct (dict_keys (build_freq labels))
   \<and> (k \<in> set (dict_keys (build_freq labels)) \<and> k' \<in> set (dict_keys (build_freq labels))
        \<and> equal_up_to_case k k' \<longrightarrow> k = k')
   \<and> (k \<in> set (dict_keys (build_freq labels)) \<longrightarrow>
        dict_get (build_freq labels) k 0
          = int (length (filter (\<lambda>l. equal_up_to_case l k) labels)))
   \<and> dict_get (build_freq labels) (lower k) 0
        = int (length (filter (\<lambda>l. equal_up_to_case l k) labels))
   \<and> build_freq [''Street'', ''street'', ''LANE''] = [(''street'', 2), (''lane'', 1)]"
proof -
  let ?keys = "set (dict_keys (build_freq labels))"
  have keys: "?keys = lower ` set labels"
    by (simp add: dict_keys_def build_freq_def Counter_keys)
  have fixed: "lower x = x" if "x \<in> ?keys" for x
  proof -
    from that keys obtain y where "x = lower y" by blast
    then show ?thesis by (simp only: lower_idem)
  qed
  have label: "l \<in> set labels \<longrightarrow> lower l \<in> ?keys \<and> equal_up_to_case l (lower l)"
  proof
    assume "l \<in> set labels"
    then have "lower l \<in> ?keys" unfolding keys by (rule imageI)
    moreover have "equal_up_to_case l (lower l)"
      by (simp only: lower_eq_iff [symmetric] lower_idem)
    ultimately show "lower l \<in> ?keys \<and> equal_up_to_case l (lower l)" ..
  qed
  have small: "k \<in> ?keys \<longrightarrow> set k \<inter> set upper_letters = {}"
  proof
    assume "k \<in> ?keys"
    then have "lower k = k" by (rule fixed)
    with lower_no_upper [of k] show "set k \<inter> set upper_letters = {}" by (simp only:)
  qed
  have merge: "l \<in> set labels \<and> l' \<in> set labels \<and> equal_up_to_case l l' \<longrightarrow> lower l = lower l'"
    by (simp only: lower_eq_iff) blast
  have dist: "distinct (dict_keys (build_freq labels))"
    by (simp add: dict_keys_def build_freq_def Counter_distinct)
  have apart: "k \<in> ?keys \<and> k' \<in> ?keys \<and> equal_up_to_case k k' \<longrightarrow> k = k'"
  proof
    assume h: "k \<in> ?keys \<and> k' \<in> ?keys \<and> equal_up_to_case k k'"
    then have "lower k = lower k'" by (simp only: lower_eq_iff)
    moreover have "lower k = k" "lower k' = k'" using h by (blast intro: fixed)+
    ultimately show "k = k'" by (simp only:)
  qed
  have cnt: "dict_get (build_freq labels) (lower k) 0
      = int (length (filter (\<lambda>l. equal_up_to_case l k) labels))"
    by (simp only: build_freq_def Counter_get count_list_map_filter lower_eq_iff)
  have key_cnt: "k \<in> ?keys \<longrightarrow>
      dict_get (build_freq labels) k 0 = int (length (filter (\<lambda>l. equal_up_to_case l k) labels))"
  proof
    assume "k \<in> ?keys"
    then have "lower k = k" by (rule fixed)
    with cnt show "dict_get (build_freq labels) k 0
        = int (length (filter (\<lambda>l. equal_up_to_case l k) labels))" by (simp only:)
  qed
  from keys label small merge dist apart key_cnt cnt build_freq_scenario
  show ?thesis by (intro conjI)
qed

text \<open>
  Witness for C6: in the table built from \<open>Street\<close>, \<open>street\<close>, \<open>LANE\<close> the labels
  \<open>Street\<close> and \<open>street\<close> are equal up to case and are counted under the key
  \<open>street\<close>, whose count is 2.
\<close>

theorem build_freq_case_insensitive_witness:
  "''Street'' \<in> set [''Street'', ''street'', ''LANE'']
   \<and> ''street'' \<in> set [''Street'', ''street'', ''LANE'']
   \<and> equal_up_to_case ''Street'' ''street''
   \<and> ''street'' \<in> set (dict_keys (build_freq [''Street'', ''street'', ''LANE'']))
   \<and> equal_up_to_case ''street'' ''street''
   \<and> lower ''Street'' = lower ''street''
   \<and> set ''street'' \<inter> set upper_letters = {}
   \<and> dict_get (build_freq [''Street'', ''street'', ''LANE'']) ''street'' 0 = 2
   \<and> length (filter (\<lambda>l. equal_up_to_case l ''street'') [''Street'', ''street'', ''LANE'']) = 2"
  using build_freq_case_insensitive [of "[''Street'', ''street'', ''LANE'']"
      "''Street''" "''street''" "''street''" "''street''"]
  by (simp add: dict_keys_def lower_scenario equal_up_to_case_scenario build_freq_scenario)

subsection \<open>The probability table\<close>



text \<open>
  Claim C10. For a non-empty list of labels the two tables have the same keys (in the same
  order), every frequency is at least 1, and every probability is positive and at
  most 1.
\<close>

theorem build_tables_invariants:
  assumes "labels \<noteq> []"
  shows "\<exists>freq prob. build_tables labels = Inr (freq, prob)
     \<and> dict_keys prob = dict_keys freq
     \<and> (\<forall>v \<in> set (dict_values freq). 1 \<le> v)
     \<and> (\<forall>p \<in> set (dict_values prob). 0 < p \<and> p \<le> 1)"
proof -
  let ?freq = "build_freq labels"
  let ?n = "real (length labels)"
  let ?prob = "map (\<lambda>(k, v). (k, real_of_int v / ?n)) ?freq"
  have n: "0 < ?n" using assms by simp
  have bounds: "1 \<le> v \<and> v \<le> int (length labels)" if "(k, v) \<in> set ?freq" for k v
  proof -
    from that have "(k, v) \<in> set (Counter (map lower labels))"
      by (simp add: build_freq_def)
    then have k: "k \<in> set (map lower labels)" and v: "v = int (count_list (map lower labels) k)"
      by (rule Counter_entry)+
    from k have "0 < count_list (map lower labels) k"
      by (metis count_list_0_iff gr0I)
    moreover have "count_list (map lower labels) k \<le> length (map lower labels)"
      by (rule count_le_length)
    ultimately show ?thesis using v by simp
  qed
  have "dict_keys ?prob = dict_keys ?freq"
    by (simp only: dict_keys_def map_fst_map_values)
  moreover have "\<forall>v \<in> set (dict_values ?freq). 1 \<le> v"
    using bounds by (auto simp: dict_values_def)
  moreover have "\<forall>p \<in> set (dict_values ?prob). 0 < p \<and> p \<le> 1"
  proof
    fix p assume "p \<in> set (dict_values ?prob)"
    then obtain k v where kv: "(k, v) \<in> set ?freq" and p: "p = real_of_int v / ?n"
      by (auto simp: dict_values_def)
    from bounds [OF kv] have "0 < real_of_int v" "real_of_int v \<le> ?n"
      by simp_all
    with n show "0 < p \<and> p \<le> 1" by (simp add: p)
  qed
  ultimately show ?thesis
    by (simp add: build_tables_eq)
qed

text \<open>Witness for C10: the same tables, both with the keys \<open>street\<close> and \<open>lane\<close>.\<close>

theorem build_tables_invariants_witness:
  "[''Street'', ''street'', ''LANE''] \<noteq> []
   \<and> build_tables [''Street'', ''street'', ''LANE'']
       = Inr ([(''street'', 2), (''lane'', 1)], [(''street'', 2 / 3), (''lane'', 1 / 3)])
   \<and> dict_keys [(''street'', 2 / 3 :: real), (''lane'', 1 / 3)]
       = dict_keys [(''street'', 2 :: int), (''lane'', 1)]"
  using build_tables_invariants [of "[''Street'', ''street'', ''LANE'']"]
  by (simp add: build_tables_eq build_freq_scenario dict_keys_def)

subsection \<open>The proportional difference\<close>



text \<open>
  Claim C5. For tables with distinct keys (as every \<open>dict\<close> has): the value of each entry is
  \<open>prob_a.get(w, 0) - prob_b.get(w, 0)\<close> for its key \<open>w\<close>; the values descend along the
  result; and the entries of any one value keep the order their keys have in
  \<open>prob_b\<close>. The tables \<open>{street: 0.5}\<close> and \<open>{street: 0.2, lane: 0.1}\<close> give
  \<open>street\<close> with 0.3, then \<open>lane\<close> with -0.1.
\<close>

theorem rank_difference_sorted:
  assumes "distinct (dict_keys prob_b)"
  shows "map snd (rank_difference prob_a prob_b)
       = map (\<lambda>w. dict_get prob_a w 0 - dict_get prob_b w 0) (map fst (rank_difference prob_a prob_b))
   \<and> sorted_wrt (\<lambda>x y. snd x \<ge> snd y) (rank_difference prob_a prob_b)
   \<and> map fst (filter (\<lambda>x. snd x = d) (rank_difference prob_a prob_b))
       = filter (\<lambda>w. dict_get prob_a w 0 - dict_get prob_b w 0 = d) (dict_keys prob_b)
   \<and> rank_difference [(''street'', 1 / 2)] [(''street'', 1 / 5), (''lane'', 1 / 10)]
       = [(''street'', 3 / 10), (''lane'', - 1 / 10)]"
proof -
  let ?diff = "\<lambda>w. dict_get prob_a w 0 - dict_get prob_b w 0"
  have items: "diff_comprehension prob_a prob_b = map (\<lambda>w. (w, ?diff w)) (dict_keys prob_b)"
    using assms by (rule diff_comprehension_distinct)
  have "snd x = ?diff (fst x)" if "x \<in> set (rank_difference prob_a prob_b)" for x
    using that by (auto simp: rank_difference_def set_sorted_reverse items)
  then have vals: "map snd (rank_difference prob_a prob_b)
       = map ?diff (map fst (rank_difference prob_a prob_b))"
    by simp
  have desc: "sorted_wrt (\<lambda>x y. snd x \<ge> snd y) (rank_difference prob_a prob_b)"
    by (simp add: rank_difference_def sorted_reverse_descending)
  have "filter (\<lambda>x. snd x = d) (rank_difference prob_a prob_b)
      = filter (\<lambda>x. snd x = d) (map (\<lambda>w. (w, ?diff w)) (dict_keys prob_b))"
    by (simp add: rank_difference_def sorted_reverse_stable items)
  then have stable: "map fst (filter (\<lambda>x. snd x = d) (rank_difference prob_a prob_b))
       = filter (\<lambda>w. ?diff w = d) (dict_keys prob_b)"
    by (simp add: filter_map comp_def)
  have "rank_difference [(''street'', 1 / 2)] [(''street'', 1 / 5), (''lane'', 1 / 10)]
       = [(''street'', 3 / 10), (''lane'', - 1 / 10)]"
    by (simp add: rank_difference_def sorted_reverse_def diff_comprehension_def dict_keys_def)
  with vals desc stable show ?thesis by blast
qed

text \<open>
  Witness for C5: \<open>lane\<close> and \<open>road\<close> tie at -0.25 and stay in the order of the second table, after
  \<open>street\<close> at 0.
\<close>

theorem rank_difference_sorted_witness:
  "distinct (dict_keys [(''lane'', 1 / 4 :: real), (''street'', 1 / 2), (''road'', 1 / 4)])
   \<and> rank_difference [(''street'', 1 / 2), (''church'', 1 / 2)]
        [(''lane'', 1 / 4), (''street'', 1 / 2), (''road'', 1 / 4)]
       = [(''street'', 0), (''lane'', - 1 / 4), (''road'', - 1 / 4)]"
  using rank_difference_sorted [of "[(''lane'', 1 / 4), (''street'', 1 / 2), (''road'', 1 / 4)]"
      "[(''street'', 1 / 2), (''church'', 1 / 2)]"]
  by (simp add: rank_difference_def sorted_reverse_def diff_comprehension_def dict_keys_def)

end
